theory Spec2Isabelle
  imports Complex_Main "HOL-Library.Word"
begin

section \<open>Python numbers used by \<open>add_santa_hat\<close>\<close>

text \<open>
  The compositor of \<open>app.py\<close> computes the size of the hat with Python's \<open>float\<close>
  (IEEE 754 binary64) and \<open>int\<close> (unbounded). A finite float is the rational number it
  denotes; the results of float operations are rounded to the nearest representable
  value, ties to even, with gradual underflow below \<open>2 ^ -1022\<close> and overflow to
  infinity from \<open>2 ^ 1024\<close> on. The sign of zero is not kept: the program only
  multiplies, divides and truncates, where it cannot be observed.
\<close>

datatype error = ValueError | OverflowError | ZeroDivisionError

datatype pyfloat = Finite rat | PosInf | NegInf | NaN

function bit_length :: "int \<Rightarrow> int" where
  "bit_length n = (if n \<le> 0 then 0 else 1 + bit_length (n div 2))"
  by pat_completeness auto
termination
  by (relation "measure nat") auto

declare bit_length.simps [simp del]

definition floor_log2 :: "rat \<Rightarrow> int" where
  \<comment> \<open>for \<open>0 < x\<close>: the integer \<open>e\<close> with \<open>2 ^ e \<le> x < 2 ^ (e + 1)\<close>\<close>
  "floor_log2 x =
     (let (p, q) = quotient_of x;
          d = bit_length p - bit_length q
      in if 2 powi d \<le> x then d else d - 1)"

definition round_half_even :: "rat \<Rightarrow> int" where
  "round_half_even x =
     (let f = \<lfloor>x\<rfloor>; d = x - of_int f
      in if d < 1 / 2 then f
         else if 1 / 2 < d then f + 1
         else if even f then f else f + 1)"

definition round_double :: "rat \<Rightarrow> pyfloat" where
  \<comment> \<open>\<open>m\<close> is the significand in units of \<open>q\<close>, at most \<open>2 ^ 53\<close>; the rounded value
      \<open>m * q\<close> reaches \<open>2 ^ 1024\<close> exactly when the test for infinity holds\<close>
  "round_double x =
     (if x = 0 then Finite 0
      else
        let e = max (floor_log2 \<bar>x\<bar>) (- 1022);
            q = 2 powi (e - 52);
            m = round_half_even (\<bar>x\<bar> / q)
        in if 1024 \<le> e \<or> (e = 1023 \<and> m = 2 ^ 53)
           then (if 0 < x then PosInf else NegInf)
           else Finite (sgn x * (of_int m * q)))"

text \<open>\<open>float(n)\<close> for an \<open>int\<close>, as done implicitly by \<open>n * f\<close>.\<close>

definition float_of_int :: "int \<Rightarrow> error + pyfloat" where
  "float_of_int n =
     (case round_double (of_int n) of
        Finite r \<Rightarrow> Inr (Finite r)
      | _ \<Rightarrow> Inl OverflowError)"

fun float_mul :: "pyfloat \<Rightarrow> pyfloat \<Rightarrow> pyfloat" where
  "float_mul NaN _ = NaN"
| "float_mul _ NaN = NaN"
| "float_mul (Finite a) (Finite b) = round_double (a * b)"
| "float_mul (Finite a) PosInf = (if a = 0 then NaN else if 0 < a then PosInf else NegInf)"
| "float_mul (Finite a) NegInf = (if a = 0 then NaN else if 0 < a then NegInf else PosInf)"
| "float_mul PosInf (Finite b) = (if b = 0 then NaN else if 0 < b then PosInf else NegInf)"
| "float_mul NegInf (Finite b) = (if b = 0 then NaN else if 0 < b then NegInf else PosInf)"
| "float_mul PosInf PosInf = PosInf"
| "float_mul PosInf NegInf = NegInf"
| "float_mul NegInf PosInf = NegInf"
| "float_mul NegInf NegInf = PosInf"

text \<open>\<open>n * f\<close> with \<open>n\<close> an \<open>int\<close> and \<open>f\<close> a \<open>float\<close>.\<close>

definition int_mul_float :: "int \<Rightarrow> pyfloat \<Rightarrow> error + pyfloat" where
  "int_mul_float n f =
     (case float_of_int n of
        Inl e \<Rightarrow> Inl e
      | Inr g \<Rightarrow> Inr (float_mul g f))"

text \<open>\<open>a / b\<close> with both operands \<open>int\<close>: the correctly rounded quotient.\<close>

definition int_true_div :: "int \<Rightarrow> int \<Rightarrow> error + pyfloat" where
  "int_true_div a b =
     (if b = 0 then Inl ZeroDivisionError
      else case round_double (of_int a / of_int b) of
             Finite r \<Rightarrow> Inr (Finite r)
           | _ \<Rightarrow> Inl OverflowError)"

text \<open>\<open>int(f)\<close>: truncation towards zero.\<close>

definition trunc_to_zero :: "rat \<Rightarrow> int" where
  "trunc_to_zero r = (if 0 \<le> r then \<lfloor>r\<rfloor> else \<lceil>r\<rceil>)"

fun py_int :: "pyfloat \<Rightarrow> error + int" where
  "py_int (Finite r) = Inr (trunc_to_zero r)"
| "py_int PosInf = Inl OverflowError"
| "py_int NegInf = Inl OverflowError"
| "py_int NaN = Inl ValueError"

text \<open>Lines 43 and 44 of \<open>app.py\<close>: the size the hat is resized to.\<close>

definition hat_size :: "nat \<Rightarrow> nat \<Rightarrow> nat \<Rightarrow> pyfloat \<Rightarrow> error + int \<times> int" where
  "hat_size profile_width santa_width santa_height hat_scale =
     (case int_mul_float (int profile_width) hat_scale of
        Inl e \<Rightarrow> Inl e
      | Inr f \<Rightarrow>
     (case py_int f of
        Inl e \<Rightarrow> Inl e
      | Inr hat_width \<Rightarrow>
     (case int_true_div hat_width (int santa_width) of
        Inl e \<Rightarrow> Inl e
      | Inr ratio \<Rightarrow>
     (case int_mul_float (int santa_height) ratio of
        Inl e \<Rightarrow> Inl e
      | Inr g \<Rightarrow>
     (case py_int g of
        Inl e \<Rightarrow> Inl e
      | Inr hat_height \<Rightarrow> Inr (hat_width, hat_height))))))"

section \<open>Images and the imaging library\<close>

text \<open>
  A raster of the imaging library (Pillow): its mode, its size and its pixels. Every
  image the compositor works on after line 40 has mode \<open>RGBA\<close>, four 8-bit channels a
  pixel. Pixels are addressed by column \<open>x\<close> and row \<open>y\<close>; only coordinates inside the
  raster are meaningful.
\<close>

datatype pixel = Pixel (red: "8 word") (green: "8 word") (blue: "8 word") (alpha: "8 word")

record image =
  mode :: string
  width :: nat
  height :: nat
  pix :: "nat \<Rightarrow> nat \<Rightarrow> pixel"

text \<open>
  Three routines of the library work in floating point on whole rasters and are taken as
  parameters: the conversion of a pixel of another mode to \<open>RGBA\<close>, the Lanczos
  resampling to a new size, and the rotation by an angle that is not a multiple of 360
  degrees, with the canvas expanded (it yields the new size and the pixels).
\<close>

record imaging =
  to_rgba :: "image \<Rightarrow> nat \<Rightarrow> nat \<Rightarrow> pixel"
  lanczos :: "image \<Rightarrow> nat \<Rightarrow> nat \<Rightarrow> nat \<Rightarrow> nat \<Rightarrow> pixel"
  rotate_expand :: "image \<Rightarrow> int \<Rightarrow> nat \<times> nat \<times> (nat \<Rightarrow> nat \<Rightarrow> pixel)"

text \<open>
  Python passes images by reference and \<open>paste\<close> writes into its target, so images live
  in a store: a reference is an index into the list of all images allocated so far, and
  a new image is appended. Each operation of the library is given as the image it
  computes, followed by the call on the store. The references a caller holds are below
  the length of the store; other indices have no meaning here, and every statement about
  a call takes its two image arguments to be such references. Memory is not bounded: no
  allocation fails.
\<close>

type_synonym ref = nat
type_synonym store = "image list"

definition alloc :: "store \<Rightarrow> image \<Rightarrow> ref \<times> store" where
  "alloc s im = (length s, s @ [im])"

text \<open>\<open>im.convert("RGBA")\<close>: always a new image; a copy when the mode is \<open>RGBA\<close> already.\<close>

definition converted :: "imaging \<Rightarrow> image \<Rightarrow> image" where
  "converted lib im =
     (if mode im = ''RGBA'' then im
      else \<lparr>mode = ''RGBA'', width = width im, height = height im, pix = to_rgba lib im\<rparr>)"

definition convert :: "imaging \<Rightarrow> store \<Rightarrow> ref \<Rightarrow> ref \<times> store" where
  "convert lib s r = alloc s (converted lib (s ! r))"

text \<open>
  \<open>im.resize((w, h), LANCZOS)\<close>: a copy when the size does not change; otherwise the
  sizes must fit a C \<open>int\<close> and be at least 1.
\<close>

definition resized :: "imaging \<Rightarrow> image \<Rightarrow> int \<times> int \<Rightarrow> error + image" where
  "resized lib im sz =
     (let w = fst sz; h = snd sz
      in if (int (width im), int (height im)) = (w, h) then Inr im
         else if w < - (2 ^ 31) \<or> 2 ^ 31 \<le> w \<or> h < - (2 ^ 31) \<or> 2 ^ 31 \<le> h then
           Inl OverflowError
         else if w < 1 \<or> h < 1 then Inl ValueError
         else Inr \<lparr>mode = mode im, width = nat w, height = nat h,
                    pix = lanczos lib im (nat w) (nat h)\<rparr>)"

definition resize :: "imaging \<Rightarrow> store \<Rightarrow> ref \<Rightarrow> int \<times> int \<Rightarrow> (error + ref) \<times> store" where
  "resize lib s r sz =
     (case resized lib (s ! r) sz of
        Inl e \<Rightarrow> (Inl e, s)
      | Inr im \<Rightarrow> (let (r', s') = alloc s im in (Inr r', s')))"

text \<open>\<open>im.rotate(angle, expand=True)\<close>: a copy when the angle is a multiple of 360.\<close>

definition rotated :: "imaging \<Rightarrow> image \<Rightarrow> int \<Rightarrow> image" where
  "rotated lib im angle =
     (let a = angle mod 360
      in if a = 0 then im
         else
           (let (w, h, p) = rotate_expand lib im a
            in \<lparr>mode = mode im, width = w, height = h, pix = p\<rparr>))"

definition rotate_image :: "imaging \<Rightarrow> store \<Rightarrow> ref \<Rightarrow> int \<Rightarrow> ref \<times> store" where
  "rotate_image lib s r angle = alloc s (rotated lib (s ! r) angle)"

text \<open>\<open>Image.new("RGBA", size, color)\<close>.\<close>

definition filled :: "nat \<times> nat \<Rightarrow> pixel \<Rightarrow> image" where
  "filled sz color = \<lparr>mode = ''RGBA'', width = fst sz, height = snd sz, pix = (\<lambda>x y. color)\<rparr>"

definition new_image :: "store \<Rightarrow> nat \<times> nat \<Rightarrow> pixel \<Rightarrow> ref \<times> store" where
  "new_image s sz color = alloc s (filled sz color)"

text \<open>
  The library divides by 255 with shifts: \<open>SHIFTFORDIV255(a) = ((a >> 8) + a) >> 8\<close>.
\<close>

definition shift_for_div255 :: "nat \<Rightarrow> nat" where
  "shift_for_div255 a = drop_bit 8 (drop_bit 8 a + a)"

text \<open>
  \<open>Image.alpha_composite(im1, im2)\<close>: \<open>im2\<close> over \<open>im1\<close>, both \<open>RGBA\<close> and of one size. Where
  the upper pixel is fully transparent the lower one is copied; elsewhere the library
  blends in fixed point with 7 extra bits.
\<close>

definition over_channel :: "nat \<Rightarrow> nat \<Rightarrow> 8 word \<Rightarrow> 8 word \<Rightarrow> 8 word" where
  "over_channel coef1 coef2 src dst =
     word_of_nat (drop_bit 7 (shift_for_div255 (unat src * coef1 + unat dst * coef2 + 128 * 2 ^ 7)))"

definition over_pixel :: "pixel \<Rightarrow> pixel \<Rightarrow> pixel" where
  "over_pixel dst src =
     (if alpha src = 0 then dst
      else
        let blend = unat (alpha dst) * (255 - unat (alpha src));
            outa255 = unat (alpha src) * 255 + blend;
            coef1 = unat (alpha src) * 255 * 255 * 2 ^ 7 div outa255;
            coef2 = 255 * 2 ^ 7 - coef1
        in Pixel (over_channel coef1 coef2 (red src) (red dst))
                 (over_channel coef1 coef2 (green src) (green dst))
                 (over_channel coef1 coef2 (blue src) (blue dst))
                 (word_of_nat (shift_for_div255 (outa255 + 128))))"

definition composited :: "image \<Rightarrow> image \<Rightarrow> error + image" where
  "composited im1 im2 =
     (if mode im1 = ''RGBA'' then
        (if mode im2 = ''RGBA'' \<and> width im2 = width im1 \<and> height im2 = height im1
         then Inr \<lparr>mode = ''RGBA'', width = width im1, height = height im1,
                    pix = (\<lambda>x y. over_pixel (pix im1 x y) (pix im2 x y))\<rparr>
         else Inl ValueError)
      else Inl ValueError)"

definition alpha_composite :: "store \<Rightarrow> ref \<Rightarrow> ref \<Rightarrow> (error + ref) \<times> store" where
  "alpha_composite s r1 r2 =
     (case composited (s ! r1) (s ! r2) of
        Inl e \<Rightarrow> (Inl e, s)
      | Inr im \<Rightarrow> (let (r', s') = alloc s im in (Inr r', s')))"

text \<open>
  \<open>out.paste(im, (x0, y0), mask)\<close> for three \<open>RGBA\<close> images, the case of line 61. The box
  is the size of \<open>im\<close> at \<open>(x0, y0)\<close>, clipped to \<open>out\<close>; \<open>im\<close> and \<open>mask\<close> must have one
  size. Inside the box every channel, the alpha channel too, moves from the target towards
  the pasted pixel by the mask's alpha: \<open>BLEND(mask, in1, in2) = DIV255(in1 * (255 - mask)
  + in2 * mask)\<close>. For the colour channels a target pixel of alpha 0 counts as absent: there
  a non-zero mask is taken as 255. The target is updated in place.
\<close>

definition BLEND :: "8 word \<Rightarrow> 8 word \<Rightarrow> 8 word \<Rightarrow> 8 word" where
  "BLEND m in1 in2 =
     word_of_nat (shift_for_div255 (unat in1 * (255 - unat m) + unat in2 * unat m + 128))"

definition channel_mask :: "8 word \<Rightarrow> pixel \<Rightarrow> 8 word" where
  "channel_mask m out =
     (if m = 0 then m
      else word_of_nat (255 - (255 - unat m) * (1 - (255 - unat (alpha out)) div 255)))"

definition paste_pixel :: "pixel \<Rightarrow> pixel \<Rightarrow> pixel \<Rightarrow> pixel" where
  "paste_pixel out inp msk =
     (let m = alpha msk; cm = channel_mask m out
      in Pixel (BLEND cm (red out) (red inp))
               (BLEND cm (green out) (green inp))
               (BLEND cm (blue out) (blue inp))
               (BLEND m (alpha out) (alpha inp)))"

definition in_box :: "int \<times> int \<Rightarrow> image \<Rightarrow> nat \<Rightarrow> nat \<Rightarrow> bool" where
  "in_box pos im x y =
     (fst pos \<le> int x \<and> int x < fst pos + int (width im) \<and>
      snd pos \<le> int y \<and> int y < snd pos + int (height im))"

definition paste_pixels :: "image \<Rightarrow> image \<Rightarrow> int \<times> int \<Rightarrow> image \<Rightarrow> nat \<Rightarrow> nat \<Rightarrow> pixel" where
  "paste_pixels out im pos msk x y =
     (if x < width out \<and> y < height out \<and> in_box pos im x y
      then paste_pixel (pix out x y)
             (pix im (nat (int x - fst pos)) (nat (int y - snd pos)))
             (pix msk (nat (int x - fst pos)) (nat (int y - snd pos)))
      else pix out x y)"

definition pasted :: "image \<Rightarrow> image \<Rightarrow> int \<times> int \<Rightarrow> image \<Rightarrow> error + image" where
  "pasted out im pos msk =
     (if width msk = width im \<and> height msk = height im
      then Inr (out\<lparr>pix := paste_pixels out im pos msk\<rparr>)
      else Inl ValueError)"

definition paste :: "store \<Rightarrow> ref \<Rightarrow> ref \<Rightarrow> int \<times> int \<Rightarrow> ref \<Rightarrow> (error + unit) \<times> store" where
  "paste s rout rin pos rmask =
     (case pasted (s ! rout) (s ! rin) pos (s ! rmask) of
        Inl e \<Rightarrow> (Inl e, s)
      | Inr im \<Rightarrow> (Inr (), s[rout := im]))"

section \<open>The compositor\<close>

text \<open>
  \<open>add_santa_hat\<close> of \<open>app.py\<close>, lines 39 to 63. The two images are given by reference
  into the store; the result is the reference of the composed image, or the exception
  raised, with the store as the call leaves it.
\<close>

definition hat_position :: "nat \<Rightarrow> nat \<Rightarrow> int \<Rightarrow> int \<Rightarrow> int \<times> int" where
  "hat_position profile_width santa_width hat_offset_x hat_offset_y =
     ((int profile_width - int santa_width) div 2 + hat_offset_x, hat_offset_y)"

definition add_santa_hat ::
  "imaging \<Rightarrow> store \<Rightarrow> ref \<Rightarrow> ref \<Rightarrow> pyfloat \<Rightarrow> int \<Rightarrow> int \<Rightarrow> int \<Rightarrow> (error + ref) \<times> store" where
  "add_santa_hat lib s0 profile_image0 santa_hat0 hat_scale hat_offset_x hat_offset_y hat_rotation =
     (let (profile_image, s1) = convert lib s0 profile_image0;
          (santa_hat1, s2) = convert lib s1 santa_hat0
      in case hat_size (width (s2 ! profile_image)) (width (s2 ! santa_hat1))
                (height (s2 ! santa_hat1)) hat_scale of
           Inl e \<Rightarrow> (Inl e, s2)
         | Inr (hat_width, hat_height) \<Rightarrow>
      (case resize lib s2 santa_hat1 (hat_width, hat_height) of
           (Inl e, s3) \<Rightarrow> (Inl e, s3)
         | (Inr santa_hat2, s3) \<Rightarrow>
      (let (santa_hat, s4) = rotate_image lib s3 santa_hat2 hat_rotation;
           position = hat_position (width (s4 ! profile_image)) (width (s4 ! santa_hat))
                         hat_offset_x hat_offset_y;
           (blank, s5) = new_image s4 (width (s4 ! profile_image), height (s4 ! profile_image))
                            (Pixel 0 0 0 0)
       in case alpha_composite s5 profile_image blank of
            (Inl e, s6) \<Rightarrow> (Inl e, s6)
          | (Inr combined_image, s6) \<Rightarrow>
       (case paste s6 combined_image santa_hat position santa_hat of
            (Inl e, s7) \<Rightarrow> (Inl e, s7)
          | (Inr u, s7) \<Rightarrow> (Inr combined_image, s7)))))"

section \<open>Reference points for the comparison with the specification\<close>

text \<open>
  The specification words the size computation with \<open>round\<close> where the program calls
  \<open>int\<close>. \<open>spec_hat_size\<close> is the computation as the specification words it, kept apart
  from \<open>hat_size\<close> for comparison. Python's \<open>round\<close> of a float rounds halves to even.
\<close>

fun py_round :: "pyfloat \<Rightarrow> error + int" where
  "py_round (Finite r) = Inr (round_half_even r)"
| "py_round PosInf = Inl OverflowError"
| "py_round NegInf = Inl OverflowError"
| "py_round NaN = Inl ValueError"

definition spec_hat_size :: "nat \<Rightarrow> nat \<Rightarrow> nat \<Rightarrow> pyfloat \<Rightarrow> error + int \<times> int" where
  "spec_hat_size base_width overlay_width overlay_height scale =
     (case int_mul_float (int base_width) scale of
        Inl e \<Rightarrow> Inl e
      | Inr f \<Rightarrow>
     (case py_round f of
        Inl e \<Rightarrow> Inl e
      | Inr target_width \<Rightarrow>
     (case int_true_div target_width (int overlay_width) of
        Inl e \<Rightarrow> Inl e
      | Inr ratio \<Rightarrow>
     (case int_mul_float (int overlay_height) ratio of
        Inl e \<Rightarrow> Inl e
      | Inr g \<Rightarrow>
     (case py_round g of
        Inl e \<Rightarrow> Inl e
      | Inr target_height \<Rightarrow> Inr (target_width, target_height))))))"

text \<open>
  The specification compares a call with rotation 0 to a compositor that has no rotation
  step at all: \<open>add_santa_hat\<close> without line 48.
\<close>

definition add_santa_hat_unrotated ::
  "imaging \<Rightarrow> store \<Rightarrow> ref \<Rightarrow> ref \<Rightarrow> pyfloat \<Rightarrow> int \<Rightarrow> int \<Rightarrow> (error + ref) \<times> store" where
  "add_santa_hat_unrotated lib s0 profile_image0 santa_hat0 hat_scale hat_offset_x hat_offset_y =
     (let (profile_image, s1) = convert lib s0 profile_image0;
          (santa_hat1, s2) = convert lib s1 santa_hat0
      in case hat_size (width (s2 ! profile_image)) (width (s2 ! santa_hat1))
                (height (s2 ! santa_hat1)) hat_scale of
           Inl e \<Rightarrow> (Inl e, s2)
         | Inr (hat_width, hat_height) \<Rightarrow>
      (case resize lib s2 santa_hat1 (hat_width, hat_height) of
           (Inl e, s3) \<Rightarrow> (Inl e, s3)
         | (Inr santa_hat, s3) \<Rightarrow>
      (let position = hat_position (width (s3 ! profile_image)) (width (s3 ! santa_hat))
                         hat_offset_x hat_offset_y;
           (blank, s5) = new_image s3 (width (s3 ! profile_image), height (s3 ! profile_image))
                            (Pixel 0 0 0 0)
       in case alpha_composite s5 profile_image blank of
            (Inl e, s6) \<Rightarrow> (Inl e, s6)
          | (Inr combined_image, s6) \<Rightarrow>
       (case paste s6 combined_image santa_hat position santa_hat of
            (Inl e, s7) \<Rightarrow> (Inl e, s7)
          | (Inr u, s7) \<Rightarrow> (Inr combined_image, s7)))))"

text \<open>\<open>scale > 0\<close> for a Python float.\<close>

fun float_pos :: "pyfloat \<Rightarrow> bool" where
  "float_pos (Finite r) = (0 < r)"
| "float_pos PosInf = True"
| "float_pos NegInf = False"
| "float_pos NaN = False"

text \<open>An image whose alpha channel is 0 at every pixel of the raster.\<close>

definition transparent :: "image \<Rightarrow> bool" where
  "transparent im = (\<forall>x<width im. \<forall>y<height im. alpha (pix im x y) = 0)"

text \<open>
  What the statements below ask of the library's filters where they need anything: a fully
  transparent image stays fully transparent when it is resampled or rotated.
\<close>

definition keeps_transparent :: "imaging \<Rightarrow> bool" where
  "keeps_transparent lib =
     ((\<forall>im w h. transparent im \<longrightarrow> (\<forall>x<w. \<forall>y<h. alpha (lanczos lib im w h x y) = 0)) \<and>
      (\<forall>im a. transparent im \<longrightarrow>
         (case rotate_expand lib im a of
            (w, h, p) \<Rightarrow> \<forall>x<w. \<forall>y<h. alpha (p x y) = 0)))"

text \<open>
  An instance of the library parameters to run the model on examples: opaque conversion,
  nearest-neighbour resampling and a transposition for the rotation. It stands in for the
  library only where a concrete value of the parameters is needed.
\<close>

definition nearest :: "image \<Rightarrow> nat \<Rightarrow> nat \<Rightarrow> nat \<Rightarrow> nat \<Rightarrow> pixel" where
  "nearest im w h x y =
     (if width im = 0 \<or> height im = 0 then Pixel 0 0 0 0
      else pix im (x * width im div w) (y * height im div h))"

definition example_lib :: imaging where
  "example_lib =
     \<lparr>to_rgba = (\<lambda>im x y. Pixel (red (pix im x y)) (green (pix im x y)) (blue (pix im x y)) 255),
      lanczos = nearest,
      rotate_expand = (\<lambda>im a. (height im, width im, (\<lambda>x y. pix im y x)))\<rparr>"

text \<open>The images of the specification's scenario: an opaque white base and an opaque red overlay.\<close>

definition opaque_white :: pixel where
  "opaque_white = Pixel 255 255 255 255"

definition opaque_red :: pixel where
  "opaque_red = Pixel 255 0 0 255"

definition scenario_base :: image where
  "scenario_base = filled (800, 800) opaque_white"

definition scenario_overlay :: image where
  "scenario_overlay = filled (200, 100) opaque_red"

section \<open>The rounding of floats\<close>

lemma bit_length_bounds:
  assumes "0 < n"
  obtains k where "bit_length n = int (Suc k)" and "2 ^ k \<le> n" and "n < 2 ^ Suc k"
  using assms
proof (induction n arbitrary: thesis rule: bit_length.induct)
  case (1 n)
  show ?case
  proof (cases "n = 1")
    case True
    have "bit_length 1 = int (Suc 0)"
      by (simp add: bit_length.simps [of 1] bit_length.simps [of 0])
    with True show ?thesis
      using "1.prems"(1) [of 0] by simp
  next
    case False
    with "1.prems"(2) have half: "0 < n div 2" by simp
    from "1.prems"(2) have "\<not> n \<le> 0" by simp
    from "1.IH" [OF this _ half] obtain k where
      k: "bit_length (n div 2) = int (Suc k)" "2 ^ k \<le> n div 2" "n div 2 < 2 ^ Suc k"
      by blast
    have "bit_length n = int (Suc (Suc k))"
      using "1.prems"(2) k(1) by (simp add: bit_length.simps [of n])
    moreover have "2 ^ Suc k \<le> n"
      using k(2) by simp
    moreover have "n < 2 ^ Suc (Suc k)"
      using k(3) by simp
    ultimately show ?thesis
      by (rule "1.prems"(1))
  qed
qed

text \<open>\<open>floor_log2\<close> brackets a positive rational between two powers of 2.\<close>

lemma floor_log2_bounds:
  assumes "0 < x"
  shows "2 powi floor_log2 x \<le> x \<and> x < 2 powi (floor_log2 x + 1)"
proof -
  obtain p q where pq: "quotient_of x = (p, q)" by (cases "quotient_of x")
  then have q: "0 < q" and x: "x = of_int p / of_int q"
    by (simp_all add: quotient_of_denom_pos quotient_of_div)
  from assms q x have p: "0 < p"
    by (simp add: zero_less_divide_iff)
  obtain a where a: "bit_length p = int (Suc a)" "2 ^ a \<le> p" "p < 2 ^ Suc a"
    using bit_length_bounds [OF p] by blast
  obtain b where b: "bit_length q = int (Suc b)" "2 ^ b \<le> q" "q < 2 ^ Suc b"
    using bit_length_bounds [OF q] by blast
  define d where "d = int a - int b"
  have d: "bit_length p - bit_length q = d"
    by (simp add: a b d_def)
  have pw: "(2::rat) powi (int m - int n) = 2 ^ m / 2 ^ n" for m n
    by (simp add: power_int_diff)
  have qpos: "(0::rat) < of_int q" using q by simp
  have ra: "(2::rat) ^ a \<le> of_int p" "(of_int p :: rat) < 2 ^ Suc a"
    using a(2,3) by (metis of_int_le_iff of_int_numeral of_int_power,
        metis of_int_less_iff of_int_numeral of_int_power)
  have rb: "(2::rat) ^ b \<le> of_int q" "(of_int q :: rat) < 2 ^ Suc b"
    using b(2,3) by (metis of_int_le_iff of_int_numeral of_int_power,
        metis of_int_less_iff of_int_numeral of_int_power)
  have upper: "x < 2 powi (d + 1)"
  proof -
    have "of_int p / of_int q < (2::rat) ^ Suc a / 2 ^ b"
      by (rule frac_less) (use p ra(2) rb(1) in simp_all)
    then have "x < 2 ^ Suc a / 2 ^ b"
      unfolding x .
    also have "\<dots> = 2 powi (int (Suc a) - int b)" by (simp only: pw)
    also have "int (Suc a) - int b = d + 1" by (simp add: d_def)
    finally show ?thesis .
  qed
  have lower: "2 powi (d - 1) \<le> x"
  proof -
    have "(2::rat) ^ a / 2 ^ Suc b \<le> of_int p / of_int q"
      by (rule frac_le) (use p q ra(1) order_less_imp_le [OF rb(2)] in simp_all)
    also have "(2::rat) ^ a / 2 ^ Suc b = 2 powi (int a - int (Suc b))" by (simp only: pw)
    also have "int a - int (Suc b) = d - 1" by (simp add: d_def)
    finally show ?thesis unfolding x .
  qed
  show ?thesis
  proof (cases "2 powi d \<le> x")
    case True
    then have "floor_log2 x = d" by (simp add: floor_log2_def pq d)
    with True upper show ?thesis by simp
  next
    case False
    then have "floor_log2 x = d - 1" by (simp add: floor_log2_def pq d)
    with False lower show ?thesis by simp
  qed
qed

text \<open>
  Three known values: \<open>0.1\<close> is the double \<open>3602879701896397 / 2 ^ 55\<close>; the integer
  \<open>2 ^ 53 + 1\<close> is not a double and rounds to the even neighbour \<open>2 ^ 53\<close>, and
  \<open>2 ^ 53 + 3\<close> rounds to \<open>2 ^ 53 + 4\<close>.
\<close>

lemma round_double_examples:
  "round_double (1 / 10) = Finite (3602879701896397 / 36028797018963968)"
  "round_double 9007199254740993 = Finite 9007199254740992"
  "round_double 9007199254740995 = Finite 9007199254740996"
  by code_simp+

section \<open>How a call runs\<close>

lemma mode_converted: "mode (converted lib im) = ''RGBA''"
  by (simp add: converted_def)

lemma width_converted: "width (converted lib im) = width im"
  by (simp add: converted_def)

lemma height_converted: "height (converted lib im) = height im"
  by (simp add: converted_def)

lemma over_pixel_transparent: "over_pixel p (Pixel 0 0 0 0) = p"
  by (simp add: over_pixel_def)

lemma composited_blank:
  "mode P = ''RGBA'' \<Longrightarrow> composited P (filled (width P, height P) (Pixel 0 0 0 0)) = Inr P"
  by (simp add: composited_def filled_def over_pixel_transparent)

lemma pasted_self: "pasted out im pos im = Inr (out\<lparr>pix := paste_pixels out im pos im\<rparr>)"
  by (simp add: pasted_def)

text \<open>
  The whole call in one equation: the two conversions always allocate; an exception of the
  size computation or of \<open>resize\<close> ends the call there; otherwise four more images are
  allocated and the last of them, the copy of the converted base, receives the hat.
\<close>

lemma add_santa_hat_run:
  assumes "rp < length s" and "rh < length s"
  shows "add_santa_hat lib s rp rh hat_scale ox oy rot =
    (let P = converted lib (s ! rp); H = converted lib (s ! rh)
     in case hat_size (width P) (width H) (height H) hat_scale of
          Inl e \<Rightarrow> (Inl e, s @ [P, H])
        | Inr sz \<Rightarrow>
            (case resized lib H sz of
               Inl e \<Rightarrow> (Inl e, s @ [P, H])
             | Inr R \<Rightarrow>
                 (let T = rotated lib R rot;
                      B = filled (width P, height P) (Pixel 0 0 0 0);
                      C = P\<lparr>pix := paste_pixels P T (hat_position (width P) (width T) ox oy) T\<rparr>
                  in (Inr (length s + 5), s @ [P, H, R, T, B, C]))))"
  using assms
  by (simp add: add_santa_hat_def convert_def alloc_def resize_def rotate_image_def new_image_def
      alpha_composite_def paste_def Let_def nth_append list_update_append mode_converted
      composited_blank pasted_self split: sum.splits prod.splits)

lemma add_santa_hat_cases:
  assumes "rp < length s" and "rh < length s"
  obtains (failed) e where
      "add_santa_hat lib s rp rh hat_scale ox oy rot =
         (Inl e, s @ [converted lib (s ! rp), converted lib (s ! rh)])"
  | (returned) w h R where
      "hat_size (width (s ! rp)) (width (s ! rh)) (height (s ! rh)) hat_scale = Inr (w, h)"
      "resized lib (converted lib (s ! rh)) (w, h) = Inr R"
      "add_santa_hat lib s rp rh hat_scale ox oy rot =
         (Inr (length s + 5),
          s @ [converted lib (s ! rp), converted lib (s ! rh), R, rotated lib R rot,
               filled (width (s ! rp), height (s ! rp)) (Pixel 0 0 0 0),
               (converted lib (s ! rp))\<lparr>pix :=
                  paste_pixels (converted lib (s ! rp)) (rotated lib R rot)
                    (hat_position (width (s ! rp)) (width (rotated lib R rot)) ox oy)
                    (rotated lib R rot)\<rparr>])"
proof (cases "hat_size (width (s ! rp)) (width (s ! rh)) (height (s ! rh)) hat_scale")
  case (Inl e)
  then show ?thesis
    using failed [of e] assms
    by (simp add: add_santa_hat_run width_converted height_converted)
next
  case (Inr sz)
  obtain w h where sz: "sz = (w, h)" by (cases sz)
  show ?thesis
  proof (cases "resized lib (converted lib (s ! rh)) (w, h)")
    case (Inl e)
    then show ?thesis
      using failed [of e] assms Inr sz
      by (simp add: add_santa_hat_run width_converted height_converted)
  next
    case R: (Inr R)
    show ?thesis
      using returned [of w h R] assms Inr sz R
      by (simp add: add_santa_hat_run width_converted height_converted Let_def)
  qed
qed

lemma add_santa_hat_unrotated_run:
  assumes "rp < length s" and "rh < length s"
  shows "add_santa_hat_unrotated lib s rp rh hat_scale ox oy =
    (let P = converted lib (s ! rp); H = converted lib (s ! rh)
     in case hat_size (width P) (width H) (height H) hat_scale of
          Inl e \<Rightarrow> (Inl e, s @ [P, H])
        | Inr sz \<Rightarrow>
            (case resized lib H sz of
               Inl e \<Rightarrow> (Inl e, s @ [P, H])
             | Inr R \<Rightarrow>
                 (let B = filled (width P, height P) (Pixel 0 0 0 0);
                      C = P\<lparr>pix := paste_pixels P R (hat_position (width P) (width R) ox oy) R\<rparr>
                  in (Inr (length s + 4), s @ [P, H, R, B, C]))))"
  using assms
  by (simp add: add_santa_hat_unrotated_def convert_def alloc_def resize_def new_image_def
      alpha_composite_def paste_def Let_def nth_append list_update_append mode_converted
      composited_blank pasted_self split: sum.splits prod.splits)

lemma rotated_zero: "rotated lib im 0 = im"
  by (simp add: rotated_def)

lemma converted_filled: "converted lib (filled sz c) = filled sz c"
  by (simp add: converted_def filled_def)

lemma width_filled [simp]: "width (filled (w, h) c) = w"
  by (simp add: filled_def)

lemma height_filled [simp]: "height (filled (w, h) c) = h"
  by (simp add: filled_def)

lemma pix_filled [simp]: "pix (filled sz c) x y = c"
  by (simp add: filled_def)

lemma scenario_size: "hat_size 800 200 100 (Finite (1 / 2)) = Inr (400, 200)"
proof -
  have a: "int_mul_float 800 (Finite (1 / 2)) = Inr (Finite 400)" by code_simp
  have b: "int_true_div 400 200 = Inr (Finite 2)" by code_simp
  have c: "int_mul_float 100 (Finite 2) = Inr (Finite 200)" by code_simp
  have d: "trunc_to_zero 400 = 400" "trunc_to_zero 200 = 200" by code_simp+
  show ?thesis by (simp add: hat_size_def a b c d)
qed

lemma flat_size: "hat_size 100 1000 1 (Finite (1 / 2)) = Inr (50, 0)"
proof -
  have a: "int_mul_float 100 (Finite (1 / 2)) = Inr (Finite 50)" by code_simp
  have b: "int_true_div 50 1000 = Inr (Finite (3602879701896397 / 72057594037927936))"
    by code_simp
  have c: "int_mul_float 1 (Finite (3602879701896397 / 72057594037927936)) =
      Inr (Finite (3602879701896397 / 72057594037927936))" by code_simp
  have d: "trunc_to_zero 50 = 50" "trunc_to_zero (3602879701896397 / 72057594037927936) = 0"
    by code_simp+
  show ?thesis by (simp add: hat_size_def a b c d)
qed

lemma quarter_size: "hat_size 31 16 8 (Finite (1 / 4)) = Inr (7, 3)"
proof -
  have a: "int_mul_float 31 (Finite (1 / 4)) = Inr (Finite (31 / 4))" by code_simp
  have b: "int_true_div 7 16 = Inr (Finite (7 / 16))" by code_simp
  have c: "int_mul_float 8 (Finite (7 / 16)) = Inr (Finite (7 / 2))" by code_simp
  have d: "trunc_to_zero (31 / 4) = 7" "trunc_to_zero (7 / 2) = 3" by code_simp+
  show ?thesis by (simp add: hat_size_def a b c d)
qed

lemma quarter_size_rounded: "spec_hat_size 31 16 8 (Finite (1 / 4)) = Inr (8, 4)"
proof -
  have a: "int_mul_float 31 (Finite (1 / 4)) = Inr (Finite (31 / 4))" by code_simp
  have b: "int_true_div 8 16 = Inr (Finite (1 / 2))" by code_simp
  have c: "int_mul_float 8 (Finite (1 / 2)) = Inr (Finite 4)" by code_simp
  have d: "round_half_even (31 / 4) = 8" "round_half_even 4 = 4" by code_simp+
  show ?thesis by (simp add: spec_hat_size_def a b c d)
qed









section \<open>Signs in the size computation\<close>







lemma hat_size_parts:
  assumes "hat_size W ow oh hat_scale = Inr (w, h)"
  shows "\<exists>f q g. int_mul_float (int W) hat_scale = Inr (Finite f) \<and> w = trunc_to_zero f \<and>
           int_true_div w (int ow) = Inr q \<and>
           int_mul_float (int oh) q = Inr (Finite g) \<and> h = trunc_to_zero g"
proof -
  obtain f' where f': "int_mul_float (int W) hat_scale = Inr f'" "py_int f' = Inr w"
    using assms by (auto simp add: hat_size_def split: sum.splits)
  obtain q where q: "int_true_div w (int ow) = Inr q"
    using assms f' by (auto simp add: hat_size_def split: sum.splits)
  obtain g' where g': "int_mul_float (int oh) q = Inr g'" "py_int g' = Inr h"
    using assms f' q by (auto simp add: hat_size_def split: sum.splits)
  obtain f where f: "f' = Finite f" "w = trunc_to_zero f"
    using f'(2) by (cases f') auto
  obtain g where g: "g' = Finite g" "h = trunc_to_zero g"
    using g'(2) by (cases g') auto
  show ?thesis using f' q g' f g by blast
qed




lemma resized_size:
  assumes "resized lib H (w, h) = Inr R"
  shows "int (width R) = w \<and> int (height R) = h"
  using assms by (auto simp add: resized_def Let_def split: if_splits)

section \<open>Blending\<close>

lemma shift_for_div255_keep:
  assumes "n < 256"
  shows "shift_for_div255 (n * 255 + 128) = n"
proof -
  have "(n * 255 + 128) div 256 = (if n \<le> 128 then n else n - 1)"
    using assms by auto
  then show ?thesis
    using assms by (auto simp add: shift_for_div255_def drop_bit_eq_div)
qed

lemma BLEND_zero: "BLEND 0 out inp = out"
proof -
  have "unat out < 256" using unsigned_less [of out] by simp
  then show ?thesis
    by (simp add: BLEND_def shift_for_div255_keep)
qed

lemma BLEND_full: "BLEND 255 out inp = inp"
proof -
  have "unat inp < 256" using unsigned_less [of inp] by simp
  then show ?thesis
    by (simp add: BLEND_def shift_for_div255_keep)
qed

lemma channel_mask_zero: "channel_mask 0 out = 0"
  by (simp add: channel_mask_def)

lemma channel_mask_full: "channel_mask 255 out = 255"
  by (simp add: channel_mask_def)

lemma paste_pixel_transparent:
  assumes "alpha msk = 0"
  shows "paste_pixel out inp msk = out"
  using assms by (simp add: paste_pixel_def channel_mask_zero BLEND_zero)

lemma paste_pixel_opaque:
  assumes "alpha inp = 255"
  shows "paste_pixel out inp inp = inp"
  using assms by (cases inp) (simp add: paste_pixel_def channel_mask_full BLEND_full)

section \<open>Transparent overlays\<close>

lemma resized_transparent:
  assumes "keeps_transparent lib" and "transparent H" and "resized lib H sz = Inr R"
  shows "transparent R"
proof (cases "(int (width H), int (height H)) = (fst sz, snd sz)")
  case True
  with assms(3) have "R = H" by (simp add: resized_def Let_def)
  with assms(2) show ?thesis by simp
next
  case False
  with assms(3) have R: "R = \<lparr>mode = mode H, width = nat (fst sz), height = nat (snd sz),
      pix = lanczos lib H (nat (fst sz)) (nat (snd sz))\<rparr>"
    by (simp add: resized_def Let_def split: if_splits)
  from assms(1,2) have "\<forall>x<nat (fst sz). \<forall>y<nat (snd sz).
      alpha (lanczos lib H (nat (fst sz)) (nat (snd sz)) x y) = 0"
    unfolding keeps_transparent_def by blast
  with R show ?thesis by (simp add: transparent_def)
qed

lemma rotated_transparent:
  assumes "keeps_transparent lib" and "transparent R"
  shows "transparent (rotated lib R rot)"
proof (cases "rot mod 360 = 0")
  case True
  with assms(2) show ?thesis by (simp add: rotated_def)
next
  case False
  obtain w h p where e: "rotate_expand lib R (rot mod 360) = (w, h, p)"
    by (cases "rotate_expand lib R (rot mod 360)") auto
  from assms(1) have k: "transparent im \<Longrightarrow>
      (case rotate_expand lib im a of (w, h, p) \<Rightarrow> \<forall>x<w. \<forall>y<h. alpha (p x y) = 0)" for im a
    by (simp add: keeps_transparent_def)
  from k [OF assms(2), of "rot mod 360"] e have "\<forall>x<w. \<forall>y<h. alpha (p x y) = 0"
    by simp
  moreover from e False
  have "rotated lib R rot = \<lparr>mode = mode R, width = w, height = h, pix = p\<rparr>"
    by (simp add: rotated_def)
  ultimately show ?thesis by (simp add: transparent_def)
qed

lemma paste_transparent:
  assumes "transparent T"
  shows "paste_pixels P T pos T = pix P"
proof (intro ext)
  fix x y
  show "paste_pixels P T pos T x y = pix P x y"
  proof (cases "x < width P \<and> y < height P \<and> in_box pos T x y")
    case True
    then have "nat (int x - fst pos) < width T" and "nat (int y - snd pos) < height T"
      by (auto simp add: in_box_def)
    with assms have "alpha (pix T (nat (int x - fst pos)) (nat (int y - snd pos))) = 0"
      by (simp add: transparent_def)
    with True show ?thesis
      by (simp add: paste_pixels_def paste_pixel_transparent)
  next
    case False
    then show ?thesis by (auto simp add: paste_pixels_def)
  qed
qed

lemma nearest_index:
  assumes "x < w" and "0 < (n::nat)"
  shows "x * n div w < n"
proof -
  from assms have "x * n < n * w" by simp
  then show ?thesis by (rule less_mult_imp_div_less)
qed

lemma example_lib_keeps_transparent: "keeps_transparent example_lib"
proof -
  have a: "alpha (nearest im w h x y) = 0" if "transparent im" "x < w" "y < h" for im w h x y
    using that by (simp add: nearest_def transparent_def nearest_index)
  have b: "alpha (pix im y x) = 0" if "transparent im" "x < height im" "y < width im" for im x y
    using that by (simp add: transparent_def)
  show ?thesis
    by (simp add: keeps_transparent_def example_lib_def a b)
qed

section \<open>Claims\<close>



text \<open>
  C2, as the specification states it: the overlay is resized to the width
  \<open>round(base.width * scale)\<close> and the height \<open>round(overlay.height * (width /
  overlay.width))\<close>. The program truncates instead: for a base 31 wide, a 16 by 8 overlay
  and scale 0.25 the rounded size is 8 by 4, and the overlay is resized to 7 by 3.
\<close>

theorem rounded_size_counterexample:
  "spec_hat_size 31 16 8 (Finite (1 / 4)) = Inr (8, 4) \<and>
   fst (add_santa_hat example_lib [filled (31, 31) opaque_white, filled (16, 8) opaque_red] 0 1
          (Finite (1 / 4)) 0 0 0) = Inr 7 \<and>
   width (snd (add_santa_hat example_lib [filled (31, 31) opaque_white,
             filled (16, 8) opaque_red] 0 1 (Finite (1 / 4)) 0 0 0) ! 4) = 7 \<and>
   height (snd (add_santa_hat example_lib [filled (31, 31) opaque_white,
             filled (16, 8) opaque_red] 0 1 (Finite (1 / 4)) 0 0 0) ! 4) = 3"
  using quarter_size
  by (simp add: quarter_size_rounded add_santa_hat_run converted_filled resized_def Let_def)

text \<open>
  C2, amended: in a call that returns, the overlay is resized, before the rotation, to
  the width \<open>int(base.width * scale)\<close> and the height \<open>int(overlay.height * (width /
  overlay.width))\<close>, both truncated towards zero, the products and the quotient being those
  of Python's floats; the aspect ratio is kept up to that truncation.
\<close>

theorem resized_size_truncated:
  assumes "rp < length s" and "rh < length s"
    and "add_santa_hat lib s rp rh hat_scale ox oy rot = (Inr r, s')"
  shows "\<exists>f q g.
           int_mul_float (int (width (s ! rp))) hat_scale = Inr (Finite f) \<and>
           int_true_div (trunc_to_zero f) (int (width (s ! rh))) = Inr q \<and>
           int_mul_float (int (height (s ! rh))) q = Inr (Finite g) \<and>
           int (width (s' ! (length s + 2))) = trunc_to_zero f \<and>
           int (height (s' ! (length s + 2))) = trunc_to_zero g"
  using assms(1,2)
proof (cases rule: add_santa_hat_cases [of rp s rh lib hat_scale ox oy rot])
  case (failed e)
  with assms(3) show ?thesis by simp
next
  case (returned w h R)
  from returned(3) assms(3) have R: "s' ! (length s + 2) = R"
    by (auto simp add: nth_append)
  from resized_size [OF returned(2)] hat_size_parts [OF returned(1)] R
  show ?thesis by auto
qed

theorem resized_size_truncated_witness:
  "(0::nat) < length [filled (31, 31) opaque_white, filled (16, 8) opaque_red] \<and>
   (1::nat) < length [filled (31, 31) opaque_white, filled (16, 8) opaque_red] \<and>
   fst (add_santa_hat example_lib [filled (31, 31) opaque_white, filled (16, 8) opaque_red] 0 1
          (Finite (1 / 4)) 0 0 0) = Inr 7 \<and>
   int_mul_float 31 (Finite (1 / 4)) = Inr (Finite (31 / 4)) \<and>
   int (width (snd (add_santa_hat example_lib [filled (31, 31) opaque_white,
          filled (16, 8) opaque_red] 0 1 (Finite (1 / 4)) 0 0 0) ! 4)) = trunc_to_zero (31 / 4) \<and>
   int_true_div 7 16 = Inr (Finite (7 / 16)) \<and>
   int_mul_float 8 (Finite (7 / 16)) = Inr (Finite (7 / 2)) \<and>
   int (height (snd (add_santa_hat example_lib [filled (31, 31) opaque_white,
          filled (16, 8) opaque_red] 0 1 (Finite (1 / 4)) 0 0 0) ! 4)) = trunc_to_zero (7 / 2)"
proof -
  have a: "int_mul_float 31 (Finite (1 / 4)) = Inr (Finite (31 / 4))" by code_simp
  have b: "int_true_div 7 16 = Inr (Finite (7 / 16))" by code_simp
  have c: "int_mul_float 8 (Finite (7 / 16)) = Inr (Finite (7 / 2))" by code_simp
  have d: "trunc_to_zero (31 / 4) = 7" "trunc_to_zero (7 / 2) = 3" by code_simp+
  show ?thesis
    using resized_size_truncated [of 0 "[filled (31, 31) opaque_white, filled (16, 8) opaque_red]"
        1 example_lib "Finite (1 / 4)" 0 0 0 7
        "snd (add_santa_hat example_lib [filled (31, 31) opaque_white, filled (16, 8) opaque_red]
           0 1 (Finite (1 / 4)) 0 0 0)"] quarter_size
    by (simp add: a b c d add_santa_hat_run converted_filled resized_def Let_def)
qed




text \<open>
  C4. In a call that returns, the hat is pasted with its top-left corner at the column
  \<open>(base.width - hat.width) div 2 + offset_x\<close>, with floor division and the width of the
  rotated hat, and at the row \<open>offset_y\<close>, which is taken as it is. With \<open>offset_x = 0\<close> the
  horizontal midpoint of the hat's box is within one pixel of the midpoint of the base
  (twice the difference is at most 1).
\<close>

theorem hat_placement:
  assumes "rp < length s" and "rh < length s"
    and "add_santa_hat lib s rp rh hat_scale ox oy rot = (Inr r, s')"
  shows "s' ! length s = converted lib (s ! rp) \<and>
         s' ! r = (s' ! length s)\<lparr>pix :=
            paste_pixels (s' ! length s) (s' ! (length s + 3))
              ((int (width (s ! rp)) - int (width (s' ! (length s + 3)))) div 2 + ox, oy)
              (s' ! (length s + 3))\<rparr> \<and>
         hat_position (width (s ! rp)) (width (s' ! (length s + 3))) ox oy =
           (fst (hat_position (width (s ! rp)) (width (s' ! (length s + 3))) 0 oy) + ox, oy) \<and>
         \<bar>2 * fst (hat_position (width (s ! rp)) (width (s' ! (length s + 3))) 0 oy)
            + int (width (s' ! (length s + 3))) - int (width (s ! rp))\<bar> \<le> 1"
  using assms(1,2)
proof (cases rule: add_santa_hat_cases [of rp s rh lib hat_scale ox oy rot])
  case (failed e)
  with assms(3) show ?thesis by simp
next
  case (returned w h R)
  have c: "\<bar>2 * ((int a - int b) div 2) + int b - int a\<bar> \<le> 1" for a b :: nat
    by linarith
  from returned assms(3) show ?thesis
    by (auto simp add: nth_append hat_position_def width_converted c)
qed

theorem hat_placement_witness:
  "(0::nat) < length [scenario_base, scenario_overlay] \<and>
   (1::nat) < length [scenario_base, scenario_overlay] \<and>
   fst (add_santa_hat example_lib [scenario_base, scenario_overlay] 0 1 (Finite (1 / 2)) 0 0 0)
     = Inr 7 \<and>
   width (snd (add_santa_hat example_lib [scenario_base, scenario_overlay] 0 1
              (Finite (1 / 2)) 0 0 0) ! 5) = 400 \<and>
   hat_position (width scenario_base) 400 0 0 = (200, 0)"
  using hat_placement [of 0 "[scenario_base, scenario_overlay]" 1 example_lib
      "Finite (1 / 2)" 0 0 0 7
      "snd (add_santa_hat example_lib [scenario_base, scenario_overlay] 0 1 (Finite (1 / 2)) 0 0 0)"]
  by (simp add: add_santa_hat_run scenario_base_def scenario_overlay_def converted_filled
      scenario_size resized_def rotated_def hat_position_def Let_def)

text \<open>
  C5. No call changes the caller's base image or overlay image: whether the call returns
  or raises, both are in the store as they were, as is every other image that existed
  before the call; and the image returned is a new one, distinct from both inputs.
\<close>

theorem inputs_not_mutated:
  assumes "rp < length s" and "rh < length s"
    and "add_santa_hat lib s rp rh hat_scale ox oy rot = (res, s')"
  shows "s' ! rp = s ! rp \<and> s' ! rh = s ! rh \<and> take (length s) s' = s \<and>
         (\<forall>r. res = Inr r \<longrightarrow> length s \<le> r \<and> r < length s' \<and> r \<noteq> rp \<and> r \<noteq> rh)"
  using assms(1,2)
proof (cases rule: add_santa_hat_cases [of rp s rh lib hat_scale ox oy rot])
  case (failed e)
  then show ?thesis
    using assms by (auto simp add: nth_append)
next
  case (returned w h R)
  then show ?thesis
    using assms by (auto simp add: nth_append)
qed

theorem inputs_not_mutated_witness:
  "(0::nat) < length [scenario_base, scenario_overlay] \<and>
   (1::nat) < length [scenario_base, scenario_overlay] \<and>
   fst (add_santa_hat example_lib [scenario_base, scenario_overlay] 0 1 (Finite (1 / 2)) 0 0 0)
     = Inr 7 \<and>
   snd (add_santa_hat example_lib [scenario_base, scenario_overlay] 0 1 (Finite (1 / 2)) 0 0 0) ! 0
     = scenario_base \<and>
   snd (add_santa_hat example_lib [scenario_base, scenario_overlay] 0 1 (Finite (1 / 2)) 0 0 0) ! 1
     = scenario_overlay"
  using inputs_not_mutated [of 0 "[scenario_base, scenario_overlay]" 1 example_lib
      "Finite (1 / 2)" 0 0 0
      "fst (add_santa_hat example_lib [scenario_base, scenario_overlay] 0 1 (Finite (1 / 2)) 0 0 0)"
      "snd (add_santa_hat example_lib [scenario_base, scenario_overlay] 0 1 (Finite (1 / 2)) 0 0 0)"]
  by (simp add: add_santa_hat_run scenario_base_def scenario_overlay_def converted_filled
      scenario_size resized_def Let_def)



text \<open>
  C7. For every base image and all geometry parameters, composing an overlay that is
  fully transparent (alpha 0 at every pixel, once converted to \<open>RGBA\<close>) returns an image
  equal to the base converted to \<open>RGBA\<close>, pixel for pixel. The library's resampling and
  rotation are taken to keep a fully transparent image fully transparent.
\<close>

theorem transparent_overlay_is_identity:
  assumes "rp < length s" and "rh < length s"
    and "keeps_transparent lib"
    and "transparent (converted lib (s ! rh))"
    and "add_santa_hat lib s rp rh hat_scale ox oy rot = (Inr r, s')"
  shows "s' ! r = converted lib (s ! rp)"
  using assms(1,2)
proof (cases rule: add_santa_hat_cases [of rp s rh lib hat_scale ox oy rot])
  case (failed e)
  with assms(5) show ?thesis by simp
next
  case (returned w h R)
  have "transparent R"
    using assms(3,4) returned(2) by (rule resized_transparent)
  with assms(3) have "transparent (rotated lib R rot)"
    by (rule rotated_transparent)
  then have "paste_pixels (converted lib (s ! rp)) (rotated lib R rot)
      (hat_position (width (s ! rp)) (width (rotated lib R rot)) ox oy) (rotated lib R rot) =
      pix (converted lib (s ! rp))"
    by (rule paste_transparent)
  with returned(3) assms(5) show ?thesis
    by (auto simp add: nth_append)
qed

theorem transparent_overlay_is_identity_witness:
  "(0::nat) < length [scenario_base, filled (200, 100) (Pixel 0 0 0 0)] \<and>
   (1::nat) < length [scenario_base, filled (200, 100) (Pixel 0 0 0 0)] \<and>
   keeps_transparent example_lib \<and>
   transparent (converted example_lib ([scenario_base, filled (200, 100) (Pixel 0 0 0 0)] ! 1)) \<and>
   fst (add_santa_hat example_lib [scenario_base, filled (200, 100) (Pixel 0 0 0 0)] 0 1
          (Finite (1 / 2)) 0 0 0) = Inr 7 \<and>
   snd (add_santa_hat example_lib [scenario_base, filled (200, 100) (Pixel 0 0 0 0)] 0 1
          (Finite (1 / 2)) 0 0 0) ! 7 = scenario_base"
proof -
  have t: "transparent (converted example_lib ([scenario_base, filled (200, 100) (Pixel 0 0 0 0)] ! 1))"
    by (simp add: converted_filled) (simp add: transparent_def filled_def)
  have run: "add_santa_hat example_lib [scenario_base, filled (200, 100) (Pixel 0 0 0 0)] 0 1
      (Finite (1 / 2)) 0 0 0 =
    (Inr 7, snd (add_santa_hat example_lib [scenario_base, filled (200, 100) (Pixel 0 0 0 0)] 0 1
      (Finite (1 / 2)) 0 0 0))"
    using scenario_size
    by (simp add: add_santa_hat_run scenario_base_def converted_filled resized_def Let_def)
  have c: "converted example_lib ([scenario_base, filled (200, 100) (Pixel 0 0 0 0)] ! 0) =
      scenario_base"
    by (simp add: scenario_base_def converted_filled)
  have f: "fst (add_santa_hat example_lib [scenario_base, filled (200, 100) (Pixel 0 0 0 0)] 0 1
      (Finite (1 / 2)) 0 0 0) = Inr 7"
    using scenario_size
    by (simp add: add_santa_hat_run scenario_base_def converted_filled resized_def Let_def)
  have "snd (add_santa_hat example_lib [scenario_base, filled (200, 100) (Pixel 0 0 0 0)] 0 1
      (Finite (1 / 2)) 0 0 0) ! 7 =
    converted example_lib ([scenario_base, filled (200, 100) (Pixel 0 0 0 0)] ! 0)"
    by (rule transparent_overlay_is_identity [OF _ _ example_lib_keeps_transparent t run]) simp_all
  with c have i: "snd (add_santa_hat example_lib [scenario_base, filled (200, 100) (Pixel 0 0 0 0)]
      0 1 (Finite (1 / 2)) 0 0 0) ! 7 = scenario_base"
    by simp
  from t f i example_lib_keeps_transparent show ?thesis
    by simp
qed

text \<open>
  C8. A call with rotation 0 gives the result of the compositor without the rotation
  step: both raise the same exception, or both return and the two returned images are
  equal, pixel for pixel.
\<close>

theorem zero_rotation_is_no_rotation:
  assumes "rp < length s" and "rh < length s"
  shows "(\<forall>e s'. add_santa_hat lib s rp rh hat_scale ox oy 0 = (Inl e, s') \<longrightarrow>
            (\<exists>s''. add_santa_hat_unrotated lib s rp rh hat_scale ox oy = (Inl e, s''))) \<and>
         (\<forall>r s'. add_santa_hat lib s rp rh hat_scale ox oy 0 = (Inr r, s') \<longrightarrow>
            (\<exists>r' s''. add_santa_hat_unrotated lib s rp rh hat_scale ox oy = (Inr r', s'') \<and>
               s'' ! r' = s' ! r))"
  using assms
  by (auto simp add: add_santa_hat_run add_santa_hat_unrotated_run rotated_zero Let_def
      nth_append split: sum.splits)

theorem zero_rotation_is_no_rotation_witness:
  "(0::nat) < length [scenario_base, scenario_overlay] \<and>
   (1::nat) < length [scenario_base, scenario_overlay] \<and>
   fst (add_santa_hat example_lib [scenario_base, scenario_overlay] 0 1 (Finite (1 / 2)) 0 0 0)
     = Inr 7 \<and>
   fst (add_santa_hat_unrotated example_lib [scenario_base, scenario_overlay] 0 1
          (Finite (1 / 2)) 0 0) = Inr 6 \<and>
   snd (add_santa_hat_unrotated example_lib [scenario_base, scenario_overlay] 0 1
          (Finite (1 / 2)) 0 0) ! 6 =
   snd (add_santa_hat example_lib [scenario_base, scenario_overlay] 0 1 (Finite (1 / 2)) 0 0 0) ! 7"
  using zero_rotation_is_no_rotation [of 0 "[scenario_base, scenario_overlay]" 1 example_lib
      "Finite (1 / 2)" 0 0] scenario_size
  by (simp add: add_santa_hat_run add_santa_hat_unrotated_run rotated_zero scenario_base_def
      scenario_overlay_def converted_filled resized_def Let_def)

text \<open>
  C9. The scenario of the specification: an 800 by 800 opaque white base, a 200 by 100
  opaque red overlay, scale 0.5, offsets 0 and rotation 0. The overlay is resized to 400
  by 200 and placed at column 200, row 0; the returned image is 800 by 800, red in rows 0
  to 199 of columns 200 to 599 and white everywhere else. The resampling of the uniformly
  red overlay is taken to be uniformly red.
\<close>

theorem scenario_output:
  assumes "\<forall>x<400. \<forall>y<200. lanczos lib scenario_overlay 400 200 x y = opaque_red"
  shows "fst (add_santa_hat lib [scenario_base, scenario_overlay] 0 1 (Finite (1 / 2)) 0 0 0)
           = Inr 7 \<and>
         width (snd (add_santa_hat lib [scenario_base, scenario_overlay] 0 1
                  (Finite (1 / 2)) 0 0 0) ! 4) = 400 \<and>
         height (snd (add_santa_hat lib [scenario_base, scenario_overlay] 0 1
                  (Finite (1 / 2)) 0 0 0) ! 4) = 200 \<and>
         hat_position 800
           (width (snd (add_santa_hat lib [scenario_base, scenario_overlay] 0 1
                  (Finite (1 / 2)) 0 0 0) ! 5)) 0 0 = (200, 0) \<and>
         width (snd (add_santa_hat lib [scenario_base, scenario_overlay] 0 1
                  (Finite (1 / 2)) 0 0 0) ! 7) = 800 \<and>
         height (snd (add_santa_hat lib [scenario_base, scenario_overlay] 0 1
                  (Finite (1 / 2)) 0 0 0) ! 7) = 800 \<and>
         (\<forall>x<800. \<forall>y<800.
            pix (snd (add_santa_hat lib [scenario_base, scenario_overlay] 0 1
                   (Finite (1 / 2)) 0 0 0) ! 7) x y =
            (if 200 \<le> x \<and> x < 600 \<and> y < 200 then opaque_red else opaque_white))"
proof -
  define R where "R = \<lparr>mode = ''RGBA'', width = 400, height = 200,
    pix = lanczos lib scenario_overlay 400 200\<rparr>"
  define C where "C = scenario_base\<lparr>pix := paste_pixels scenario_base R (200, 0) R\<rparr>"
  have size: "hat_size 800 200 100 (Finite (1 / 2)) = Inr (400, 200)"
    by (rule scenario_size)
  have resized: "resized lib scenario_overlay (400, 200) = Inr R"
    by (simp add: resized_def R_def scenario_overlay_def filled_def)
  have position: "hat_position 800 400 0 0 = (200, 0)"
    by (simp add: hat_position_def)
  have widths: "width scenario_base = 800" "height scenario_base = 800"
    "width scenario_overlay = 200" "height scenario_overlay = 100" "width R = 400"
    by (simp_all add: scenario_base_def scenario_overlay_def R_def)
  have conv: "converted lib scenario_base = scenario_base"
    "converted lib scenario_overlay = scenario_overlay"
    by (simp_all add: scenario_base_def scenario_overlay_def converted_filled)
  have run: "add_santa_hat lib [scenario_base, scenario_overlay] 0 1 (Finite (1 / 2)) 0 0 0 =
    (Inr 7, [scenario_base, scenario_overlay, scenario_base, scenario_overlay, R, R,
             filled (800, 800) (Pixel 0 0 0 0), C])"
    by (simp add: add_santa_hat_run conv widths size resized rotated_zero position C_def Let_def)
  have pixels: "pix C x y = (if 200 \<le> x \<and> x < 600 \<and> y < 200 then opaque_red else opaque_white)"
    if "x < 800" "y < 800" for x y
  proof (cases "200 \<le> x \<and> x < 600 \<and> y < 200")
    case True
    then have "nat (int x - 200) < 400" by auto
    with assms True have "pix R (nat (int x - 200)) y = opaque_red"
      by (simp add: R_def)
    moreover have "in_box (200, 0) R x y"
      using True by (simp add: in_box_def R_def)
    moreover have "paste_pixel p opaque_red opaque_red = opaque_red" for p
      by (rule paste_pixel_opaque) (simp add: opaque_red_def)
    ultimately show ?thesis
      using that True by (simp add: C_def paste_pixels_def widths)
  next
    case False
    then have "\<not> in_box (200, 0) R x y"
      by (auto simp add: in_box_def R_def)
    then have "pix C x y = opaque_white"
      by (simp add: C_def paste_pixels_def scenario_base_def filled_def)
    with False show ?thesis
      by auto
  qed
  have C: "width C = 800" "height C = 800"
    by (simp_all add: C_def widths)
  show ?thesis
    unfolding run by (simp add: R_def position C pixels)
qed

theorem scenario_output_witness:
  "lanczos example_lib scenario_overlay 400 200 0 0 = opaque_red \<and>
   lanczos example_lib scenario_overlay 400 200 399 199 = opaque_red \<and>
   fst (add_santa_hat example_lib [scenario_base, scenario_overlay] 0 1 (Finite (1 / 2)) 0 0 0)
     = Inr 7 \<and>
   pix (snd (add_santa_hat example_lib [scenario_base, scenario_overlay] 0 1
          (Finite (1 / 2)) 0 0 0) ! 7) 200 0 = opaque_red \<and>
   pix (snd (add_santa_hat example_lib [scenario_base, scenario_overlay] 0 1
          (Finite (1 / 2)) 0 0 0) ! 7) 599 199 = opaque_red \<and>
   pix (snd (add_santa_hat example_lib [scenario_base, scenario_overlay] 0 1
          (Finite (1 / 2)) 0 0 0) ! 7) 199 0 = opaque_white \<and>
   pix (snd (add_santa_hat example_lib [scenario_base, scenario_overlay] 0 1
          (Finite (1 / 2)) 0 0 0) ! 7) 600 0 = opaque_white \<and>
   pix (snd (add_santa_hat example_lib [scenario_base, scenario_overlay] 0 1
          (Finite (1 / 2)) 0 0 0) ! 7) 300 200 = opaque_white"
proof -
  have flat: "\<forall>x<400. \<forall>y<200. lanczos example_lib scenario_overlay 400 200 x y = opaque_red"
    by (simp add: example_lib_def nearest_def scenario_overlay_def filled_def)
  from scenario_output [OF flat] flat show ?thesis
    by simp
qed

text \<open>
  C10. There are inputs within the stated preconditions (positive scale, both images at
  least 1 by 1) for which the target height is 0 while the target width is positive: a
  1000 by 1 overlay on a base 100 wide with scale 0.5 gives the target 50 by 0. Nothing
  rejects it before \<open>resize\<close> is called with it; the call ends there, with the library's
  \<open>ValueError\<close>.
\<close>

theorem zero_height_target:
  "float_pos (Finite (1 / 2)) \<and>
   hat_size 100 1000 1 (Finite (1 / 2)) = Inr (50, 0) \<and>
   add_santa_hat lib [filled (100, 100) opaque_white, filled (1000, 1) opaque_red] 0 1
       (Finite (1 / 2)) ox oy rot =
     (Inl ValueError,
      [filled (100, 100) opaque_white, filled (1000, 1) opaque_red,
       filled (100, 100) opaque_white, filled (1000, 1) opaque_red])"
  using flat_size
  by (simp add: add_santa_hat_run converted_filled resized_def Let_def)

end
